theory Spec2Isabelle
  imports Main "HOL-Library.Word"
begin

unbundle bit_operations_syntax

section \<open>The outside world: the I2C bus, the console and the sensor pins\<close>

text \<open>
  The program talks to four PCF8574 expanders over one shared I2C bus (\<open>i2c0\<close>). The bus
  is outside the program, so its behaviour is an input of the model: a script of replies,
  one consumed by each transaction in the order the program issues them. A reply is either
  \<open>OSError\<close> (the transaction raises) or \<open>Byte b\<close> (the transaction completes; for a
  one-byte read \<open>b\<close> is the byte delivered, for a write or a scan \<open>b\<close> is ignored). An
  exhausted script answers \<open>OSError\<close>. Every transaction issued is appended to
  \<open>traffic\<close>, every \<open>print\<close> to \<open>stdout\<close>.

  The register of a PCF8574 is one byte: \<open>readfrom(address, 1)[0]\<close> is in 0..255 and
  \<open>write_pin\<close> is only ever called with pin numbers from \<open>range(8)\<close>, so the cached
  \<open>value\<close> is an \<open>8 word\<close>.
\<close>

datatype reply = OSError | Byte "8 word"

datatype bus_op = Scan | Readfrom nat | Writeto nat "8 word"

text \<open>
  One constructor for each \<open>print\<close> of the source that the model reaches, with the values
  it formats: lines 31, 55, 305, 310, 316, 379, 405 and 408.
\<close>

datatype message =
    Device_not_found nat
  | Write_error nat
  | All_relays_set string
  | Relay_set string string
  | Error_parsing_request
  | Starting_key_scanning
  | Triggered nat nat string bool
  | Error_in_scan_keys

record env =
  replies :: "reply list"
  traffic :: "bus_op list"
  stdout :: "message list"
  sensor_ht1 :: int
  sensor_ht2 :: int
  sensor_ht3 :: int

definition transact :: "bus_op \<Rightarrow> env \<Rightarrow> reply \<times> env" where
  "transact op e =
     (case replies e of
        [] \<Rightarrow> (OSError, e\<lparr>traffic := traffic e @ [op]\<rparr>)
      | r # rs \<Rightarrow> (r, e\<lparr>replies := rs, traffic := traffic e @ [op]\<rparr>))"

definition print :: "message \<Rightarrow> env \<Rightarrow> env" where
  "print m e = e\<lparr>stdout := stdout e @ [m]\<rparr>"

section \<open>class PCF8574\<close>

text \<open>The field \<open>value\<close> of the source is \<open>pcf_value\<close> here.\<close>

record PCF8574 =
  address :: nat
  pcf_value :: "8 word"
  is_valid :: bool

text \<open>\<open>__init__\<close>: the cache starts at 0xFF; the device is invalid iff \<open>i2c.scan()\<close> raises.\<close>

definition PCF8574_init :: "nat \<Rightarrow> env \<Rightarrow> PCF8574 \<times> env" where
  "PCF8574_init addr e =
     (case transact Scan e of
        (OSError, e') \<Rightarrow>
          (\<lparr>address = addr, pcf_value = 0xFF, is_valid = False\<rparr>, print (Device_not_found addr) e')
      | (Byte _, e') \<Rightarrow>
          (\<lparr>address = addr, pcf_value = 0xFF, is_valid = True\<rparr>, e'))"

text \<open>\<open>read_all\<close>: \<open>None\<close> is the source's \<open>return None\<close>.\<close>

definition read_all :: "PCF8574 \<Rightarrow> env \<Rightarrow> 8 word option \<times> PCF8574 \<times> env" where
  "read_all d e =
     (if \<not> is_valid d then (None, d, e)
      else case transact (Readfrom (address d)) e of
             (OSError, e') \<Rightarrow> (None, d, e')
           | (Byte b, e') \<Rightarrow> (Some b, d\<lparr>pcf_value := b\<rparr>, e'))"

definition read_pin :: "PCF8574 \<Rightarrow> nat \<Rightarrow> env \<Rightarrow> bool \<times> PCF8574 \<times> env" where
  "read_pin d pin_number e =
     (if \<not> is_valid d then (False, d, e)
      else case read_all d e of
             (Some _, d', e') \<Rightarrow> (\<not> (pcf_value d' AND push_bit pin_number 1 \<noteq> 0), d', e')
           | (None, d', e') \<Rightarrow> (False, d', e'))"

definition write_all :: "PCF8574 \<Rightarrow> 8 word \<Rightarrow> env \<Rightarrow> PCF8574 \<times> env" where
  "write_all d v e =
     (if \<not> is_valid d then (d, e)
      else case transact (Writeto (address d) v) e of
             (OSError, e') \<Rightarrow> (d, print (Write_error (address d)) e')
           | (Byte _, e') \<Rightarrow> (d\<lparr>pcf_value := v\<rparr>, e'))"

text \<open>
  \<open>write_pin\<close> updates \<open>self.value\<close> in place (\<open>&=\<close>, \<open>|=\<close>) before it calls
  \<open>write_all(self.value)\<close>.
\<close>

definition write_pin :: "PCF8574 \<Rightarrow> nat \<Rightarrow> bool \<Rightarrow> env \<Rightarrow> PCF8574 \<times> env" where
  "write_pin d pin_number state e =
     (if \<not> is_valid d then (d, e)
      else
        let d' = (if \<not> state
                  then d\<lparr>pcf_value := pcf_value d AND NOT (push_bit pin_number 1)\<rparr>
                  else d\<lparr>pcf_value := pcf_value d OR push_bit pin_number 1\<rparr>)
        in write_all d' (pcf_value d') e)"

section \<open>Strings and dictionaries of the Python runtime\<close>

text \<open>\<open>str(n)\<close> for a non-negative integer, and the format \<open>{n:02d}\<close>.\<close>

fun str :: "nat \<Rightarrow> string" where
  "str n = (if n < 10 then [''0123456789'' ! n]
            else str (n div 10) @ [''0123456789'' ! (n mod 10)])"

declare str.simps [simp del]

definition fmt_02d :: "nat \<Rightarrow> string" where
  "fmt_02d n = replicate (2 - length (str n)) (CHR ''0'') @ str n"

text \<open>\<open>s.split(sep)\<close> for a one-character separator.\<close>

fun split_str :: "char \<Rightarrow> string \<Rightarrow> string list" where
  "split_str sep [] = [[]]"
| "split_str sep (c # cs) =
     (if c = sep then [] # split_str sep cs
      else (case split_str sep cs of
              w # ws \<Rightarrow> (c # w) # ws
            | [] \<Rightarrow> [[c]]))"

text \<open>
  A \<open>dict\<close> is an association list with distinct keys: \<open>d[k] = v\<close> replaces the value of
  a key that is present and appends a new key otherwise; \<open>d.get(k)\<close> and \<open>k in d\<close> are
  \<open>map_of d k\<close>. The lists are in insertion order; the runtime may iterate a dictionary
  in another order, which changes neither the entries nor what is written to which pin.
\<close>

fun dict_set :: "'k \<Rightarrow> 'v \<Rightarrow> ('k \<times> 'v) list \<Rightarrow> ('k \<times> 'v) list" where
  "dict_set k v [] = [(k, v)]"
| "dict_set k v ((k', v') # kvs) =
     (if k' = k then (k', v) # kvs else (k', v') # dict_set k v kvs)"

definition dict_update :: "('k \<times> 'v) list \<Rightarrow> ('k \<times> 'v) list \<Rightarrow> ('k \<times> 'v) list" where
  "dict_update d kvs = foldl (\<lambda>d (k, v). dict_set k v d) d kvs"

definition dict_of :: "('k \<times> 'v) list \<Rightarrow> ('k \<times> 'v) list" where
  "dict_of kvs = dict_update [] kvs"

datatype exn = IndexError | ValueError | KeyError | TypeError

section \<open>Hardware instances and the registry\<close>

definition ADDR_INPUTS_1_8 :: nat where "ADDR_INPUTS_1_8 = 0x22"
definition ADDR_INPUTS_9_16 :: nat where "ADDR_INPUTS_9_16 = 0x21"
definition ADDR_OUTPUTS_1_8 :: nat where "ADDR_OUTPUTS_1_8 = 0x24"
definition ADDR_OUTPUTS_9_16 :: nat where "ADDR_OUTPUTS_9_16 = 0x25"

text \<open>
  The four global \<open>PCF8574\<close> objects are shared by reference between the registry, the
  handlers and the scan task; here they live in one store, the \<open>board\<close>, and the registry
  holds references into it.
\<close>

record board =
  world :: env
  pcf_inputs_1_8 :: PCF8574
  pcf_inputs_9_16 :: PCF8574
  pcf_outputs_1_8 :: PCF8574
  pcf_outputs_9_16 :: PCF8574

datatype pcf_ref = Inputs_1_8 | Inputs_9_16 | Outputs_1_8 | Outputs_9_16

fun deref :: "pcf_ref \<Rightarrow> board \<Rightarrow> PCF8574" where
  "deref Inputs_1_8 b = pcf_inputs_1_8 b"
| "deref Inputs_9_16 b = pcf_inputs_9_16 b"
| "deref Outputs_1_8 b = pcf_outputs_1_8 b"
| "deref Outputs_9_16 b = pcf_outputs_9_16 b"

fun assign :: "pcf_ref \<Rightarrow> PCF8574 \<Rightarrow> board \<Rightarrow> board" where
  "assign Inputs_1_8 d b = b\<lparr>pcf_inputs_1_8 := d\<rparr>"
| "assign Inputs_9_16 d b = b\<lparr>pcf_inputs_9_16 := d\<rparr>"
| "assign Outputs_1_8 d b = b\<lparr>pcf_outputs_1_8 := d\<rparr>"
| "assign Outputs_9_16 d b = b\<lparr>pcf_outputs_9_16 := d\<rparr>"

definition print_board :: "message \<Rightarrow> board \<Rightarrow> board" where
  "print_board m b = b\<lparr>world := print m (world b)\<rparr>"

text \<open>The methods of \<open>PCF8574\<close>, called on an object of the store.\<close>

definition pcf_read_all :: "pcf_ref \<Rightarrow> board \<Rightarrow> 8 word option \<times> board" where
  "pcf_read_all p b =
     (case read_all (deref p b) (world b) of (r, d, e) \<Rightarrow> (r, assign p d (b\<lparr>world := e\<rparr>)))"

definition pcf_read_pin :: "pcf_ref \<Rightarrow> nat \<Rightarrow> board \<Rightarrow> bool \<times> board" where
  "pcf_read_pin p pin_number b =
     (case read_pin (deref p b) pin_number (world b) of
        (r, d, e) \<Rightarrow> (r, assign p d (b\<lparr>world := e\<rparr>)))"


definition pcf_write_pin :: "pcf_ref \<Rightarrow> nat \<Rightarrow> bool \<Rightarrow> board \<Rightarrow> board" where
  "pcf_write_pin p pin_number state b =
     (case write_pin (deref p b) pin_number state (world b) of
        (d, e) \<Rightarrow> assign p d (b\<lparr>world := e\<rparr>))"

text \<open>Lines 201-204: the four constructors, in order, on the shared bus.\<close>

definition hardware_instances :: "env \<Rightarrow> board" where
  "hardware_instances e0 =
     (case PCF8574_init ADDR_INPUTS_1_8 e0 of (i1, e1) \<Rightarrow>
      case PCF8574_init ADDR_INPUTS_9_16 e1 of (i2, e2) \<Rightarrow>
      case PCF8574_init ADDR_OUTPUTS_1_8 e2 of (o1, e3) \<Rightarrow>
      case PCF8574_init ADDR_OUTPUTS_9_16 e3 of (o2, e4) \<Rightarrow>
        \<lparr>world = e4, pcf_inputs_1_8 = i1, pcf_inputs_9_16 = i2,
         pcf_outputs_1_8 = o1, pcf_outputs_9_16 = o2\<rparr>)"

text \<open>\<open>outputs_map\<close>: a comprehension for relays 1..8, updated with one for relays 9..16.\<close>

definition outputs_map :: "(string \<times> pcf_ref \<times> nat) list" where
  "outputs_map =
     dict_update (dict_of (map (\<lambda>i. (str (i + 1), (Outputs_1_8, i))) [0..<8]))
                 (map (\<lambda>i. (str (i + 9), (Outputs_9_16, i))) [0..<8])"

text \<open>\<open>input_to_output_map\<close>: keyed by the address of the input device, then by the pin.\<close>

definition input_to_output_map :: "(nat \<times> (nat \<times> string) list) list" where
  "input_to_output_map =
     dict_of [(ADDR_INPUTS_1_8, dict_of (map (\<lambda>i. (i, str (i + 1))) [0..<8])),
              (ADDR_INPUTS_9_16, dict_of (map (\<lambda>i. (i, str (i + 9))) [0..<8]))]"

text \<open>The two lookups of the registry, as the handlers and the scan task perform them.\<close>

definition resolve :: "string \<Rightarrow> (pcf_ref \<times> nat) option" where
  "resolve relay_id = map_of outputs_map relay_id"

definition resolve_input :: "nat \<Rightarrow> nat \<Rightarrow> string option" where
  "resolve_input addr i = Option.bind (map_of input_to_output_map addr) (\<lambda>m. map_of m i)"


section \<open>The control request of \<open>index_handler\<close>\<close>

text \<open>
  Lines 300-310: the branch on the decoded parameters \<open>relay_id = params.get("relay")\<close>
  and \<open>state = params.get("state")\<close> (\<open>None\<close> when the parameter is absent). The loop
  over \<open>outputs_map\<close> visits its entries in order and writes each pin; \<open>relay_id in
  outputs_map\<close> is false for \<open>None\<close> and for a string that is not a key.
\<close>

definition apply_control :: "string option \<Rightarrow> string option \<Rightarrow> board \<Rightarrow> board" where
  "apply_control relay_id state b =
     (if relay_id = Some ''all'' \<and> (state = Some ''on'' \<or> state = Some ''off'') then
        let state_value = (state = Some ''on'');
            b' = foldl (\<lambda>b (relay_num, pcf, pin_num). pcf_write_pin pcf pin_num state_value b)
                       b outputs_map
        in print_board (All_relays_set (if state_value then ''ON'' else ''OFF'')) b'
      else
        case relay_id of
          None \<Rightarrow> b
        | Some r \<Rightarrow>
            (case resolve r of
               None \<Rightarrow> b
             | Some (pcf, pin_num) \<Rightarrow>
                 if state = Some ''on'' \<or> state = Some ''off'' then
                   let state_value = (state = Some ''on'');
                       b' = pcf_write_pin pcf pin_num state_value b
                   in print_board (Relay_set r (if state_value then ''ON'' else ''OFF'')) b'
                 else b))"

text \<open>
  Lines 294-295: \<open>dict(param.split("=") for param in query.split("&"))\<close> raises
  \<open>ValueError\<close> on a parameter that does not split into exactly two parts, and
  \<open>path.split("?")[1]\<close> is the text between the first and the second question mark.
\<close>

fun dict_from_pairs :: "string list list \<Rightarrow> (string \<times> string) list \<Rightarrow> exn + (string \<times> string) list" where
  "dict_from_pairs [] d = Inr d"
| "dict_from_pairs ([k, v] # ps) d = dict_from_pairs ps (dict_set k v d)"
| "dict_from_pairs (_ # ps) d = Inl ValueError"

definition parse_query :: "string \<Rightarrow> exn + (string \<times> string) list" where
  "parse_query path =
     (case split_str (CHR ''?'') path of
        _ # query # _ \<Rightarrow>
          dict_from_pairs (map (split_str (CHR ''='')) (split_str (CHR ''&'') query)) []
      | _ \<Rightarrow> Inl IndexError)"

datatype response = OK_text | Internal_Server_Error | Html_page

definition index_handler :: "string \<Rightarrow> board \<Rightarrow> response \<times> board" where
  "index_handler path b =
     (if CHR ''?'' \<in> set path then
        case parse_query path of
          Inl ex \<Rightarrow> (Internal_Server_Error, print_board Error_parsing_request b)
        | Inr params \<Rightarrow>
            (OK_text, apply_control (map_of params ''relay'') (map_of params ''state'') b)
      else (Html_page, b))"

section \<open>\<open>api_state_handler\<close>\<close>

record response_data =
  relays :: "(string \<times> string) list"
  inputs :: "(string \<times> bool) list"

text \<open>Lines 347-348 and 350-351: \<open>inputs_states[f"X{i+k:02d}"] = pcf.read_pin(i)\<close>.\<close>

definition read_inputs ::
  "pcf_ref \<Rightarrow> nat \<Rightarrow> (string \<times> bool) list \<times> board \<Rightarrow> (string \<times> bool) list \<times> board" where
  "read_inputs pcf k s =
     foldl (\<lambda>(inputs_states, b) i.
              case pcf_read_pin pcf i b of
                (r, b') \<Rightarrow> (dict_set (CHR ''X'' # fmt_02d (i + k)) r inputs_states, b'))
           s [0..<8]"

text \<open>Lines 354-358: the relay states, from the cached \<open>value\<close> of the output devices.\<close>

definition relays_state :: "board \<Rightarrow> (string \<times> string) list" where
  "relays_state b =
     foldl (\<lambda>d (relay_id, pcf, pin_num).
              let state = \<not> (pcf_value (deref pcf b) AND push_bit pin_num 1 \<noteq> 0)
              in dict_set relay_id (if state then ''off'' else ''on'') d)
           [] outputs_map"

definition api_state_handler :: "board \<Rightarrow> response_data \<times> board" where
  "api_state_handler b =
     (let inputs_states = dict_of [(''HT1'', \<not> (sensor_ht1 (world b) \<noteq> 0)),
                                   (''HT2'', \<not> (sensor_ht2 (world b) \<noteq> 0)),
                                   (''HT3'', \<not> (sensor_ht3 (world b) \<noteq> 0))];
          s1 = (if is_valid (pcf_inputs_1_8 b)
                then read_inputs Inputs_1_8 1 (inputs_states, b) else (inputs_states, b));
          s2 = (if is_valid (pcf_inputs_9_16 (snd s1))
                then read_inputs Inputs_9_16 9 s1 else s1)
      in (\<lparr>relays = relays_state (snd s2), inputs = fst s2\<rparr>, snd s2))"

section \<open>\<open>scan_keys\<close>\<close>

text \<open>The local dictionary \<open>pcf_inputs\<close>, in insertion order.\<close>

definition pcf_inputs :: "(nat \<times> pcf_ref) list" where
  "pcf_inputs = dict_of [(ADDR_INPUTS_1_8, Inputs_1_8), (ADDR_INPUTS_9_16, Inputs_9_16)]"

text \<open>
  The state of the task is \<open>prev_state\<close>, which maps an address to the result of a
  \<open>read_all\<close> (\<open>None\<close> if the initial read failed), together with the board.
\<close>

type_synonym scan_state = "(nat \<times> 8 word option) list \<times> board"

definition scan_keys_init :: "board \<Rightarrow> scan_state" where
  "scan_keys_init b =
     foldl (\<lambda>(prev_state, b) (addr, pcf).
              if is_valid (deref pcf b)
              then (case pcf_read_all pcf b of (r, b') \<Rightarrow> (dict_set addr r prev_state, b'))
              else (prev_state, b))
           ([], print_board Starting_key_scanning b) pcf_inputs"

text \<open>
  Lines 397-405, the body of \<open>for i in range(8)\<close>. An exception leaves the loops; the
  state reached so far stays, so a result is the exception raised, if any, and the state.
\<close>

definition edge_bit :: "nat \<Rightarrow> 8 word \<Rightarrow> 8 word \<Rightarrow> nat \<Rightarrow> board \<Rightarrow> exn option \<times> board" where
  "edge_bit addr diff current_state i b =
     (if diff AND push_bit i 1 \<noteq> 0 then
        if \<not> (current_state AND push_bit i 1 \<noteq> 0) then
          case resolve_input addr i of
            None \<Rightarrow> (Some KeyError, b)
          | Some relay_id \<Rightarrow>
              (case resolve relay_id of
                 None \<Rightarrow> (Some KeyError, b)
               | Some (pcf_out, pin_num) \<Rightarrow>
                   let current_relay_state =
                         \<not> (pcf_value (deref pcf_out b) AND push_bit pin_num 1 \<noteq> 0);
                       new_relay_state = \<not> current_relay_state;
                       b' = pcf_write_pin pcf_out pin_num new_relay_state b
                   in (None, print_board (Triggered i addr relay_id new_relay_state) b'))
        else (None, b)
      else (None, b))"

fun scan_bits :: "nat \<Rightarrow> 8 word \<Rightarrow> 8 word \<Rightarrow> nat list \<Rightarrow> board \<Rightarrow> exn option \<times> board" where
  "scan_bits addr diff current_state [] b = (None, b)"
| "scan_bits addr diff current_state (i # is) b =
     (case edge_bit addr diff current_state i b of
        (None, b') \<Rightarrow> scan_bits addr diff current_state is b'
      | (Some ex, b') \<Rightarrow> (Some ex, b'))"

text \<open>Lines 390-406, the body of \<open>for addr, pcf in pcf_inputs.items()\<close>.\<close>

definition scan_device :: "nat \<Rightarrow> pcf_ref \<Rightarrow> scan_state \<Rightarrow> exn option \<times> scan_state" where
  "scan_device addr pcf s =
     (case s of (prev_state, b) \<Rightarrow>
        if \<not> is_valid (deref pcf b) then (None, s)
        else (case pcf_read_all pcf b of
                (None, b') \<Rightarrow> (None, (prev_state, b'))
              | (Some current_state, b') \<Rightarrow>
                  (case map_of prev_state addr of
                     None \<Rightarrow> (Some KeyError, (prev_state, b'))
                   | Some None \<Rightarrow> (Some TypeError, (prev_state, b'))
                   | Some (Some prev) \<Rightarrow>
                       (case scan_bits addr (prev XOR current_state) current_state [0..<8] b' of
                          (None, b'') \<Rightarrow>
                            (None, (dict_set addr (Some current_state) prev_state, b''))
                        | (Some ex, b'') \<Rightarrow> (Some ex, (prev_state, b''))))))"

fun scan_devices :: "(nat \<times> pcf_ref) list \<Rightarrow> scan_state \<Rightarrow> exn option \<times> scan_state" where
  "scan_devices [] s = (None, s)"
| "scan_devices ((addr, pcf) # ds) s =
     (case scan_device addr pcf s of
        (None, s') \<Rightarrow> scan_devices ds s'
      | (Some ex, s') \<Rightarrow> (Some ex, s'))"

text \<open>One iteration of \<open>while True\<close>: the \<open>try\<close> body and its \<open>except Exception\<close>.\<close>

definition scan_pass :: "scan_state \<Rightarrow> scan_state" where
  "scan_pass s =
     (case scan_devices pcf_inputs s of
        (None, s') \<Rightarrow> s'
      | (Some ex, (prev_state, b)) \<Rightarrow> (prev_state, print_board Error_in_scan_keys b))"

text \<open>The loop never returns; \<open>scan_keys n\<close> is the state after its first \<open>n\<close> iterations.\<close>

fun scan_loop :: "nat \<Rightarrow> scan_state \<Rightarrow> scan_state" where
  "scan_loop 0 s = s"
| "scan_loop (Suc n) s = scan_loop n (scan_pass s)"

definition scan_keys :: "nat \<Rightarrow> board \<Rightarrow> scan_state" where
  "scan_keys n b = scan_loop n (scan_keys_init b)"

section \<open>Observations\<close>

text \<open>
  The keys of a dictionary after \<open>d[k] = v\<close>; the toggles the scan task has fired, which
  are the messages of line 405, each printed right after the one \<open>write_pin\<close> of a
  toggle; and a board whose bus is about to answer with a given script.
\<close>

definition add_key :: "'k list \<Rightarrow> 'k \<Rightarrow> 'k list" where
  "add_key ks k = (if k \<in> set ks then ks else ks @ [k])"

fun is_trigger :: "message \<Rightarrow> bool" where
  "is_trigger (Triggered i addr relay_id new_relay_state) = True"
| "is_trigger _ = False"

definition fired :: "board \<Rightarrow> message list" where
  "fired b = filter is_trigger (stdout (world b))"


section \<open>Example configurations\<close>

text \<open>
  A world with a given script of bus replies, a valid device with the cache of a fresh
  object, and a board of four such devices at the addresses of the source.
\<close>

definition example_env :: "reply list \<Rightarrow> env" where
  "example_env rs =
     \<lparr>replies = rs, traffic = [], stdout = [], sensor_ht1 = 1, sensor_ht2 = 1, sensor_ht3 = 1\<rparr>"

definition example_pcf :: "nat \<Rightarrow> PCF8574" where
  "example_pcf addr = \<lparr>address = addr, pcf_value = 0xFF, is_valid = True\<rparr>"

definition example_board :: "reply list \<Rightarrow> board" where
  "example_board rs =
     \<lparr>world = example_env rs,
      pcf_inputs_1_8 = example_pcf 0x22, pcf_inputs_9_16 = example_pcf 0x21,
      pcf_outputs_1_8 = example_pcf 0x24, pcf_outputs_9_16 = example_pcf 0x25\<rparr>"

definition example_board_with :: "8 word \<Rightarrow> 8 word \<Rightarrow> reply list \<Rightarrow> board" where
  "example_board_with v1 v2 rs =
     (example_board rs)\<lparr>pcf_outputs_1_8 := (example_pcf 0x24)\<lparr>pcf_value := v1\<rparr>,
                        pcf_outputs_9_16 := (example_pcf 0x25)\<lparr>pcf_value := v2\<rparr>\<rparr>"

section \<open>Bit tests\<close>

lemma test_pin_iff: "(w AND push_bit n 1 \<noteq> 0) \<longleftrightarrow> bit w n" for w :: "8 word"
  by (simp add: bit_iff_and_push_bit_not_eq_0)

lemma test_pow_iff: "(w AND 2 ^ n = 0) \<longleftrightarrow> \<not> bit w n" for w :: "8 word"
  using test_pin_iff [of w n] by auto

section \<open>The register mirror\<close>


text \<open>
  C6. \<open>read_pin\<close> answers \<open>False\<close> on an invalid device and when its \<open>read_all\<close> fails;
  when \<open>read_all\<close> delivers the register byte \<open>v\<close>, it answers \<open>True\<close> exactly when bit
  \<open>n\<close> of \<open>v\<close> is 0 (active low).
\<close>

theorem read_pin_active_low:
  "(\<not> is_valid d \<longrightarrow> fst (read_pin d n e) = False) \<and>
   (fst (read_all d e) = None \<longrightarrow> fst (read_pin d n e) = False) \<and>
   (\<forall>v. is_valid d \<and> fst (read_all d e) = Some v \<longrightarrow> fst (read_pin d n e) = (\<not> bit v n))"
  by (auto simp: read_pin_def read_all_def transact_def test_pow_iff
           split: list.splits reply.splits prod.splits option.splits)

theorem read_pin_active_low_witness:
  "is_valid (example_pcf 0x22) \<and>
   fst (read_all (example_pcf 0x22) (example_env [Byte 0xFE])) = Some 0xFE \<and>
   fst (read_pin (example_pcf 0x22) 0 (example_env [Byte 0xFE])) = True \<and>
   fst (read_pin (example_pcf 0x22) 1 (example_env [Byte 0xFE])) = False \<and>
   fst (read_all (example_pcf 0x22) (example_env [OSError])) = None \<and>
   fst (read_pin (example_pcf 0x22) 0 (example_env [OSError])) = False \<and>
   \<not> is_valid ((example_pcf 0x22)\<lparr>is_valid := False\<rparr>) \<and>
   fst (read_pin ((example_pcf 0x22)\<lparr>is_valid := False\<rparr>) 0 (example_env [Byte 0xFE])) = False"
  using read_pin_active_low [of "example_pcf 0x22" 0 "example_env [Byte 0xFE]"]
        read_pin_active_low [of "example_pcf 0x22" 1 "example_env [Byte 0xFE]"]
        read_pin_active_low [of "example_pcf 0x22" 0 "example_env [OSError]"]
        read_pin_active_low [of "(example_pcf 0x22)\<lparr>is_valid := False\<rparr>" 0
                                "example_env [Byte 0xFE]"]
  by (simp add: example_pcf_def example_env_def read_all_def transact_def)

text \<open>
  A failed \<open>read_all\<close> and a failed \<open>write_all\<close> leave the object as it was; a failed
  \<open>write_all\<close> prints the error.
\<close>

lemma read_all_failure_keeps_cache:
  "fst (read_all d e) = None \<Longrightarrow> fst (snd (read_all d e)) = d"
  by (auto simp: read_all_def transact_def split: list.splits reply.splits)

lemma write_all_failure_keeps_cache:
  "is_valid d \<Longrightarrow> fst (transact (Writeto (address d) v) e) = OSError \<Longrightarrow>
   fst (write_all d v e) = d \<and>
   stdout (snd (write_all d v e)) = stdout e @ [Write_error (address d)]"
  by (auto simp: write_all_def transact_def print_def split: list.splits reply.splits)

lemma write_all_success_sets_cache:
  "is_valid d \<Longrightarrow> fst (transact (Writeto (address d) v) e) \<noteq> OSError \<Longrightarrow>
   fst (write_all d v e) = d\<lparr>pcf_value := v\<rparr> \<and> stdout (snd (write_all d v e)) = stdout e"
  by (auto simp: write_all_def transact_def print_def split: list.splits reply.splits)

text \<open>
  C2. \<open>write_pin\<close> with a failing bus write: the device is valid with cache 0xFF, pin 0 is
  written with \<open>False\<close> and the transaction raises \<open>OSError\<close>. The error is printed and
  nothing is raised, but the cache holds the new byte 0xFE, which never reached the
  device.
\<close>

theorem write_pin_failed_write_changes_cache:
  "write_pin (example_pcf 0x24) 0 False (example_env [OSError]) =
     ((example_pcf 0x24)\<lparr>pcf_value := 0xFE\<rparr>,
      (example_env [])\<lparr>traffic := [Writeto 0x24 0xFE], stdout := [Write_error 0x24]\<rparr>)"
  by (simp add: write_pin_def write_all_def transact_def print_def example_pcf_def
                example_env_def)

lemma assign_deref [simp]: "assign p (deref p b) b = b"
  by (cases p) simp_all




section \<open>The registry\<close>


lemma str_digits:
  "str 1 = ''1''" "str 2 = ''2''" "str 3 = ''3''" "str 4 = ''4''" "str 5 = ''5''" "str 6 = ''6''"
  "str 7 = ''7''" "str 8 = ''8''" "str 9 = ''9''" "str 10 = ''10''" "str 11 = ''11''" "str 12 = ''12''"
  "str 13 = ''13''" "str 14 = ''14''" "str 15 = ''15''" "str 16 = ''16''"
  by code_simp+

lemma str_Suc: "str (Suc 0) = ''1''" "str (Suc (Suc 0)) = ''2''"
  by code_simp+

lemma outputs_map_eq:
  "outputs_map =
     [(''1'', Outputs_1_8, 0), (''2'', Outputs_1_8, 1), (''3'', Outputs_1_8, 2),
      (''4'', Outputs_1_8, 3), (''5'', Outputs_1_8, 4), (''6'', Outputs_1_8, 5),
      (''7'', Outputs_1_8, 6), (''8'', Outputs_1_8, 7),
      (''9'', Outputs_9_16, 0), (''10'', Outputs_9_16, 1), (''11'', Outputs_9_16, 2),
      (''12'', Outputs_9_16, 3), (''13'', Outputs_9_16, 4), (''14'', Outputs_9_16, 5),
      (''15'', Outputs_9_16, 6), (''16'', Outputs_9_16, 7)]"
  by code_simp

lemma input_to_output_map_eq:
  "input_to_output_map =
     [(0x22, [(0, ''1''), (1, ''2''), (2, ''3''), (3, ''4''), (4, ''5''), (5, ''6''),
              (6, ''7''), (7, ''8'')]),
      (0x21, [(0, ''9''), (1, ''10''), (2, ''11''), (3, ''12''), (4, ''13''), (5, ''14''),
              (6, ''15''), (7, ''16'')])]"
  by code_simp

lemma map_of_inj:
  "distinct (map snd xs) \<Longrightarrow> map_of xs k1 = Some v \<Longrightarrow> map_of xs k2 = Some v \<Longrightarrow> k1 = k2"
proof -
  assume d: "distinct (map snd xs)" and a: "map_of xs k1 = Some v" and b: "map_of xs k2 = Some v"
  from a have "(k1, v) \<in> set xs" by (rule map_of_SomeD)
  moreover from b have "(k2, v) \<in> set xs" by (rule map_of_SomeD)
  moreover from d have "inj_on snd (set xs)" by (simp add: distinct_map)
  ultimately have "(k1, v) = (k2, v)" by (intro inj_onD [of snd "set xs"]) simp_all
  then show "k1 = k2" by simp
qed

lemma outputs_distinct: "distinct (map snd outputs_map)"
  by (simp add: outputs_map_eq)

lemma relay_ids: "map str [1..<17] = map fst outputs_map"
  by code_simp

text \<open>
  C7. No two relay identifiers resolve to the same (device, pin); the identifiers that
  resolve are exactly "1".."16"; and for both input devices and every pin \<open>i\<close> in 0..7 the
  relay named by \<open>input_to_output_map\<close> (relay \<open>i + 1\<close> for the device at 0x22, relay
  \<open>i + 9\<close> for the device at 0x21) resolves to the paired output device and the same pin.
\<close>

theorem registry_inverse:
  "(\<forall>r1 r2 p. resolve r1 = Some p \<and> resolve r2 = Some p \<longrightarrow> r1 = r2) \<and>
   (\<forall>r. resolve r \<noteq> None \<longleftrightarrow> r \<in> set (map str [1..<17])) \<and>
   (\<forall>i<8. resolve_input ADDR_INPUTS_1_8 i = Some (str (i + 1)) \<and>
           resolve (str (i + 1)) = Some (Outputs_1_8, i)) \<and>
   (\<forall>i<8. resolve_input ADDR_INPUTS_9_16 i = Some (str (i + 9)) \<and>
           resolve (str (i + 9)) = Some (Outputs_9_16, i))"
proof (intro conjI allI impI)
  fix r1 r2 p assume "resolve r1 = Some p \<and> resolve r2 = Some p"
  then show "r1 = r2" unfolding resolve_def using map_of_inj [OF outputs_distinct] by blast
next
  fix r
  have "resolve r \<noteq> None \<longleftrightarrow> r \<in> fst ` set outputs_map"
    unfolding resolve_def by (simp add: map_of_eq_None_iff)
  also have "fst ` set outputs_map = set (map str [1..<17])"
    by (simp only: relay_ids set_map)
  finally show "resolve r \<noteq> None \<longleftrightarrow> r \<in> set (map str [1..<17])" .
next
  fix i :: nat assume "i < 8"
  then have i: "i \<in> {0, 1, 2, 3, 4, 5, 6, 7}" by auto
  then show "resolve_input ADDR_INPUTS_1_8 i = Some (str (i + 1))"
    by (auto simp: resolve_input_def input_to_output_map_eq ADDR_INPUTS_1_8_def str_digits str_Suc)
  from i show "resolve (str (i + 1)) = Some (Outputs_1_8, i)"
    by (auto simp: resolve_def outputs_map_eq str_digits str_Suc)
next
  fix i :: nat assume "i < 8"
  then have i: "i \<in> {0, 1, 2, 3, 4, 5, 6, 7}" by auto
  then show "resolve_input ADDR_INPUTS_9_16 i = Some (str (i + 9))"
    by (auto simp: resolve_input_def input_to_output_map_eq ADDR_INPUTS_9_16_def str_digits)
  from i show "resolve (str (i + 9)) = Some (Outputs_9_16, i)"
    by (auto simp: resolve_def outputs_map_eq str_digits)
qed

theorem registry_inverse_witness:
  "(2::nat) < 8 \<and> resolve_input ADDR_INPUTS_1_8 2 = Some ''3'' \<and>
   resolve ''3'' = Some (Outputs_1_8, 2) \<and>
   resolve_input ADDR_INPUTS_9_16 2 = Some ''11'' \<and>
   resolve ''11'' = Some (Outputs_9_16, 2) \<and> ''3'' \<noteq> ''11'' \<and> resolve ''17'' = None"
proof -
  have a: "\<forall>i<8. resolve_input ADDR_INPUTS_1_8 i = Some (str (i + 1)) \<and>
                  resolve (str (i + 1)) = Some (Outputs_1_8, i)"
    and b: "\<forall>i<8. resolve_input ADDR_INPUTS_9_16 i = Some (str (i + 9)) \<and>
                  resolve (str (i + 9)) = Some (Outputs_9_16, i)"
    and c: "\<forall>r. resolve r \<noteq> None \<longleftrightarrow> r \<in> set (map str [1..<17])"
    using registry_inverse by blast+
  have "resolve_input ADDR_INPUTS_1_8 2 = Some (str (2 + 1)) \<and>
        resolve (str (2 + 1)) = Some (Outputs_1_8, 2)"
    using a [rule_format, of 2] by simp
  moreover have "resolve_input ADDR_INPUTS_9_16 2 = Some (str (2 + 9)) \<and>
                 resolve (str (2 + 9)) = Some (Outputs_9_16, 2)"
    using b [rule_format, of 2] by simp
  moreover have "resolve ''17'' = None"
    using c [rule_format, of "''17''", unfolded relay_ids]
    by (cases "resolve ''17''") (auto simp: outputs_map_eq)
  ultimately show ?thesis by (simp add: str_digits)
qed

section \<open>The state query\<close>

lemma deref_assign_other: "q \<noteq> p \<Longrightarrow> deref q (assign p d b) = deref q b"
  by (cases p; cases q) simp_all

lemma deref_world_update [simp]: "deref q (b\<lparr>world := e\<rparr>) = deref q b"
  by (cases q) simp_all

lemma read_pin_frame: "q \<noteq> p \<Longrightarrow> deref q (snd (pcf_read_pin p n b)) = deref q b"
  by (simp add: pcf_read_pin_def deref_assign_other split: prod.splits)

lemma read_inputs_frame: "q \<noteq> p \<Longrightarrow> deref q (snd (read_inputs p k s)) = deref q (snd s)"
proof -
  assume qp: "q \<noteq> p"
  have "deref q (snd (foldl (\<lambda>(inputs_states, b) i.
              case pcf_read_pin p i b of
                (r, b') \<Rightarrow> (dict_set (CHR ''X'' # fmt_02d (i + k)) r inputs_states, b')) s xs))
        = deref q (snd s)" for xs
  proof (induction xs arbitrary: s)
    case Nil
    show ?case by simp
  next
    case (Cons i xs)
    obtain d b where s: "s = (d, b)" by (cases s)
    obtain r b' where rb: "pcf_read_pin p i b = (r, b')" by (cases "pcf_read_pin p i b")
    have "deref q b' = deref q b" using read_pin_frame [OF qp, of i b] rb by simp
    then show ?case using Cons.IH [of "(dict_set (CHR ''X'' # fmt_02d (i + k)) r d, b')"] s rb
      by simp
  qed
  then show ?thesis by (simp add: read_inputs_def)
qed

lemma read_inputs_fields:
  "pcf_outputs_1_8 (snd (read_inputs Inputs_1_8 k s)) = pcf_outputs_1_8 (snd s)"
  "pcf_outputs_9_16 (snd (read_inputs Inputs_1_8 k s)) = pcf_outputs_9_16 (snd s)"
  "pcf_inputs_9_16 (snd (read_inputs Inputs_1_8 k s)) = pcf_inputs_9_16 (snd s)"
  "pcf_outputs_1_8 (snd (read_inputs Inputs_9_16 k s)) = pcf_outputs_1_8 (snd s)"
  "pcf_outputs_9_16 (snd (read_inputs Inputs_9_16 k s)) = pcf_outputs_9_16 (snd s)"
  "pcf_inputs_1_8 (snd (read_inputs Inputs_9_16 k s)) = pcf_inputs_1_8 (snd s)"
  using read_inputs_frame [of Outputs_1_8 Inputs_1_8 k s]
        read_inputs_frame [of Outputs_9_16 Inputs_1_8 k s]
        read_inputs_frame [of Inputs_9_16 Inputs_1_8 k s]
        read_inputs_frame [of Outputs_1_8 Inputs_9_16 k s]
        read_inputs_frame [of Outputs_9_16 Inputs_9_16 k s]
        read_inputs_frame [of Inputs_1_8 Inputs_9_16 k s]
  by simp_all

lemma relays_state_cong:
  "pcf_outputs_1_8 b' = pcf_outputs_1_8 b \<Longrightarrow> pcf_outputs_9_16 b' = pcf_outputs_9_16 b \<Longrightarrow>
   relays_state b' = relays_state b"
  by (simp add: relays_state_def outputs_map_eq)

lemma api_state_handler_frame:
  "q = Outputs_1_8 \<or> q = Outputs_9_16 \<Longrightarrow> deref q (snd (api_state_handler b)) = deref q b"
  by (auto simp: api_state_handler_def Let_def read_inputs_fields)

lemma api_relays: "relays (fst (api_state_handler b)) = relays_state b"
proof -
  have "relays (fst (api_state_handler b)) = relays_state (snd (api_state_handler b))"
    by (simp add: api_state_handler_def Let_def)
  also have "\<dots> = relays_state b"
    using api_state_handler_frame [of Outputs_1_8 b] api_state_handler_frame [of Outputs_9_16 b]
    by (intro relays_state_cong) simp_all
  finally show ?thesis .
qed

lemma relays_state_eq:
  "relays_state b =
     map (\<lambda>(r, p, n). (r, if bit (pcf_value (deref p b)) n then ''on'' else ''off'')) outputs_map"
  by (simp add: relays_state_def outputs_map_eq test_pow_iff)

lemma relays_state_lookup:
  "map_of outputs_map r = Some (p, n) \<Longrightarrow>
   map_of (relays_state b) r = Some (if bit (pcf_value (deref p b)) n then ''on'' else ''off'')"
proof -
  assume a: "map_of outputs_map r = Some (p, n)"
  define f where "f = (\<lambda>(p, n). if bit (pcf_value (deref p b)) n then ''on'' else ''off'')"
  have "relays_state b = map (\<lambda>(r, v). (r, f v)) outputs_map"
    by (simp add: relays_state_eq f_def split_def)
  then have "map_of (relays_state b) r = map_option f (map_of outputs_map r)"
    by (simp add: map_of_map)
  with a show ?thesis by (simp add: f_def)
qed

text \<open>
  C1, as stated, fails: with the cached byte 0xFE on the first output device, bit 0 (relay
  "1") is 0 and the relay is reported "off", not "on".
\<close>

theorem relay_reported_off_when_bit_clear:
  "resolve ''1'' = Some (Outputs_1_8, 0) \<and>
   \<not> bit (pcf_value (deref Outputs_1_8 (example_board_with 0xFE 0xFF []))) 0 \<and>
   map_of (relays (fst (api_state_handler (example_board_with 0xFE 0xFF [])))) ''1'' = Some ''off'' \<and>
   \<not> (map_of (relays (fst (api_state_handler (example_board_with 0xFE 0xFF [])))) ''1'' = Some ''on'' \<longleftrightarrow>
      \<not> bit (pcf_value (deref Outputs_1_8 (example_board_with 0xFE 0xFF []))) 0)"
  by (simp add: resolve_def outputs_map_eq api_relays relays_state_eq example_board_def
                example_board_with_def example_pcf_def)

text \<open>
  C1, amended. For every relay identifier that resolves to (device, pin), the state
  query reports the relay from the cached byte of that device, "on" exactly when the bit
  is 1 and "off" exactly when the bit is 0 (line 358 reverses the active-low reading of
  line 356).
\<close>

theorem relay_reported_on_iff_bit_set:
  assumes "resolve r = Some (p, n)"
  shows "map_of (relays (fst (api_state_handler b))) r =
           Some (if bit (pcf_value (deref p b)) n then ''on'' else ''off'')"
  using assms relays_state_lookup [of r p n b] by (simp add: api_relays resolve_def)

theorem relay_reported_on_iff_bit_set_witness:
  "resolve ''1'' = Some (Outputs_1_8, 0) \<and>
   map_of (relays (fst (api_state_handler (example_board [])))) ''1'' = Some ''on'' \<and>
   map_of (relays (fst (api_state_handler (example_board_with 0xFE 0xFF [])))) ''1'' = Some ''off''"
proof -
  have r: "resolve ''1'' = Some (Outputs_1_8, 0)" by (simp add: resolve_def outputs_map_eq)
  show ?thesis
    using r relay_reported_on_iff_bit_set [OF r, of "example_board []"]
          relay_reported_on_iff_bit_set [OF r, of "example_board_with 0xFE 0xFF []"]
    by (simp add: example_board_def example_board_with_def example_pcf_def)
qed

section \<open>Startup\<close>





lemma deref_assign_same [simp]: "deref p (assign p d b) = d"
  by (cases p) simp_all







section \<open>The shape of the state response\<close>

lemma map_fst_dict_set: "map fst (dict_set k v d) = add_key (map fst d) k"
proof (induction d)
  case Nil
  show ?case by (simp add: add_key_def)
next
  case (Cons a d)
  then show ?case by (cases a) (auto simp: add_key_def image_iff)
qed

lemma read_inputs_keys:
  "map fst (fst (read_inputs p k s)) =
     foldl add_key (map fst (fst s)) (map (\<lambda>i. CHR ''X'' # fmt_02d (i + k)) [0..<8])"
proof -
  have "map fst (fst (foldl (\<lambda>(inputs_states, b) i.
              case pcf_read_pin p i b of
                (r, b') \<Rightarrow> (dict_set (CHR ''X'' # fmt_02d (i + k)) r inputs_states, b')) s xs))
        = foldl add_key (map fst (fst s)) (map (\<lambda>i. CHR ''X'' # fmt_02d (i + k)) xs)" for xs
  proof (induction xs arbitrary: s)
    case Nil
    show ?case by simp
  next
    case (Cons i xs)
    obtain d b where s: "s = (d, b)" by (cases s)
    obtain r b' where rb: "pcf_read_pin p i b = (r, b')" by (cases "pcf_read_pin p i b")
    show ?case
      using Cons.IH [of "(dict_set (CHR ''X'' # fmt_02d (i + k)) r d, b')"] s rb
      by (simp add: map_fst_dict_set)
  qed
  then show ?thesis by (simp add: read_inputs_def)
qed

lemma input_names:
  "map (\<lambda>i. CHR ''X'' # fmt_02d (i + 1)) [0..<8] =
     [''X01'', ''X02'', ''X03'', ''X04'', ''X05'', ''X06'', ''X07'', ''X08'']"
  "map (\<lambda>i. CHR ''X'' # fmt_02d (i + 9)) [0..<8] =
     [''X09'', ''X10'', ''X11'', ''X12'', ''X13'', ''X14'', ''X15'', ''X16'']"
  by code_simp+

lemma relays_values: "(k, v) \<in> set (relays_state b) \<Longrightarrow> v = ''on'' \<or> v = ''off''"
  by (auto simp: relays_state_eq split: if_splits)

lemma ht_keys: "map fst (dict_of [(''HT1'', x), (''HT2'', y), (''HT3'', z)]) = [''HT1'', ''HT2'', ''HT3'']"
  by (simp add: dict_of_def dict_update_def)

lemma keys_1:
  "foldl add_key [''HT1'', ''HT2'', ''HT3'']
     [''X01'', ''X02'', ''X03'', ''X04'', ''X05'', ''X06'', ''X07'', ''X08''] =
   [''HT1'', ''HT2'', ''HT3'', ''X01'', ''X02'', ''X03'', ''X04'', ''X05'', ''X06'', ''X07'', ''X08'']"
  by code_simp

lemma keys_2:
  "foldl add_key [''HT1'', ''HT2'', ''HT3'']
     [''X09'', ''X10'', ''X11'', ''X12'', ''X13'', ''X14'', ''X15'', ''X16''] =
   [''HT1'', ''HT2'', ''HT3'', ''X09'', ''X10'', ''X11'', ''X12'', ''X13'', ''X14'', ''X15'', ''X16'']"
  by code_simp

lemma keys_3:
  "foldl add_key
     [''HT1'', ''HT2'', ''HT3'', ''X01'', ''X02'', ''X03'', ''X04'', ''X05'', ''X06'', ''X07'', ''X08'']
     [''X09'', ''X10'', ''X11'', ''X12'', ''X13'', ''X14'', ''X15'', ''X16''] =
   [''HT1'', ''HT2'', ''HT3'', ''X01'', ''X02'', ''X03'', ''X04'', ''X05'', ''X06'', ''X07'', ''X08'',
    ''X09'', ''X10'', ''X11'', ''X12'', ''X13'', ''X14'', ''X15'', ''X16'']"
  by code_simp

lemma inputs_keys:
  "map fst (inputs (fst (api_state_handler b))) =
     [''HT1'', ''HT2'', ''HT3''] @
     (if is_valid (pcf_inputs_1_8 b)
      then [''X01'', ''X02'', ''X03'', ''X04'', ''X05'', ''X06'', ''X07'', ''X08''] else []) @
     (if is_valid (pcf_inputs_9_16 b)
      then [''X09'', ''X10'', ''X11'', ''X12'', ''X13'', ''X14'', ''X15'', ''X16''] else [])"
proof (cases "is_valid (pcf_inputs_1_8 b)"; cases "is_valid (pcf_inputs_9_16 b)")
  assume v: "is_valid (pcf_inputs_1_8 b)" "is_valid (pcf_inputs_9_16 b)"
  then show ?thesis
    by (simp only: api_state_handler_def Let_def read_inputs_keys read_inputs_fields input_names
          ht_keys keys_1 keys_3 if_True fst_conv snd_conv response_data.simps append.simps)
next
  assume v: "is_valid (pcf_inputs_1_8 b)" "\<not> is_valid (pcf_inputs_9_16 b)"
  then show ?thesis
    by (simp only: api_state_handler_def Let_def read_inputs_keys read_inputs_fields input_names
          ht_keys keys_1 keys_3 if_True if_False fst_conv snd_conv response_data.simps append.simps)
next
  assume v: "\<not> is_valid (pcf_inputs_1_8 b)" "is_valid (pcf_inputs_9_16 b)"
  then show ?thesis
    by (simp only: api_state_handler_def Let_def read_inputs_keys read_inputs_fields input_names
          ht_keys keys_2 if_True if_False fst_conv snd_conv response_data.simps append.simps)
next
  assume v: "\<not> is_valid (pcf_inputs_1_8 b)" "\<not> is_valid (pcf_inputs_9_16 b)"
  then show ?thesis
    by (simp only: api_state_handler_def Let_def 
          ht_keys if_True if_False fst_conv snd_conv response_data.simps append.simps)
qed

text \<open>
  C8, as stated, fails: when the constructor of the first input device finds the bus
  dead, the device is invalid and the response has no keys X01..X08.
\<close>

theorem state_response_misses_invalid_inputs:
  "\<not> is_valid (pcf_inputs_1_8 (hardware_instances (example_env [OSError, Byte 0, Byte 0, Byte 0]))) \<and>
   map fst (inputs (fst (api_state_handler
       (hardware_instances (example_env [OSError, Byte 0, Byte 0, Byte 0]))))) =
   [''HT1'', ''HT2'', ''HT3'', ''X09'', ''X10'', ''X11'', ''X12'', ''X13'', ''X14'', ''X15'', ''X16'']"
  by code_simp

text \<open>
  C8, amended. In every state the response has a \<open>relays\<close> dictionary whose keys are
  exactly "1".."16", each valued "on" or "off", and an \<open>inputs\<close> dictionary of booleans
  whose keys are HT1, HT2, HT3, then X01..X08 exactly when the first input device is
  valid, then X09..X16 exactly when the second input device is valid.
\<close>

theorem state_response_shape:
  "map fst (relays (fst (api_state_handler b))) = map str [1..<17] \<and>
   (\<forall>kv \<in> set (relays (fst (api_state_handler b))). snd kv = ''on'' \<or> snd kv = ''off'') \<and>
   map fst (inputs (fst (api_state_handler b))) =
     [''HT1'', ''HT2'', ''HT3''] @
     (if is_valid (pcf_inputs_1_8 b)
      then [''X01'', ''X02'', ''X03'', ''X04'', ''X05'', ''X06'', ''X07'', ''X08''] else []) @
     (if is_valid (pcf_inputs_9_16 b)
      then [''X09'', ''X10'', ''X11'', ''X12'', ''X13'', ''X14'', ''X15'', ''X16''] else [])"
proof (intro conjI ballI)
  show "map fst (relays (fst (api_state_handler b))) = map str [1..<17]"
    unfolding relay_ids by (simp add: api_relays relays_state_eq split_def o_def)
next
  fix kv assume "kv \<in> set (relays (fst (api_state_handler b)))"
  then show "snd kv = ''on'' \<or> snd kv = ''off''"
    using relays_values [of "fst kv" "snd kv" b] by (simp add: api_relays)
next
  show "map fst (inputs (fst (api_state_handler b))) =
     [''HT1'', ''HT2'', ''HT3''] @
     (if is_valid (pcf_inputs_1_8 b)
      then [''X01'', ''X02'', ''X03'', ''X04'', ''X05'', ''X06'', ''X07'', ''X08''] else []) @
     (if is_valid (pcf_inputs_9_16 b)
      then [''X09'', ''X10'', ''X11'', ''X12'', ''X13'', ''X14'', ''X15'', ''X16''] else [])"
    by (rule inputs_keys)
qed

theorem state_response_shape_witness:
  "(''3'', ''on'') \<in> set (relays (fst (api_state_handler (example_board [])))) \<and>
   map fst (inputs (fst (api_state_handler (example_board [])))) =
     [''HT1'', ''HT2'', ''HT3'', ''X01'', ''X02'', ''X03'', ''X04'', ''X05'', ''X06'', ''X07'',
      ''X08'', ''X09'', ''X10'', ''X11'', ''X12'', ''X13'', ''X14'', ''X15'', ''X16'']"
proof -
  have m: "(''3'', ''on'') \<in> set (relays (fst (api_state_handler (example_board []))))"
    by (simp add: api_relays relays_state_eq outputs_map_eq example_board_def example_pcf_def)
  have "snd (''3'', ''on'') = ''on'' \<or> snd (''3'', ''on'') = ''off''"
    using state_response_shape [of "example_board []"] m by blast
  with m show ?thesis
    using state_response_shape [of "example_board []"]
    by (simp add: example_board_def example_pcf_def)
qed

section \<open>Control requests\<close>

lemma write_pin_value:
  "is_valid d \<Longrightarrow>
   pcf_value (fst (write_pin d n s e)) =
     (if s then pcf_value d OR push_bit n 1 else pcf_value d AND NOT (push_bit n 1))"
  by (auto simp: write_pin_def write_all_def transact_def Let_def split: list.splits reply.splits)

lemma write_pin_valid: "is_valid (fst (write_pin d n s e)) = is_valid d"
  by (auto simp: write_pin_def write_all_def transact_def Let_def split: list.splits reply.splits)

lemma write_pin_invalid: "\<not> is_valid d \<Longrightarrow> write_pin d n s e = (d, e)"
  by (simp add: write_pin_def)

lemma pcf_write_pin_deref:
  "deref q (pcf_write_pin p n s b) =
     (if q = p then fst (write_pin (deref p b) n s (world b)) else deref q b)"
  by (simp add: pcf_write_pin_def case_prod_beta deref_assign_other)

lemma bit_set_pin: "bit (w OR push_bit n 1) m \<longleftrightarrow> bit w m \<or> (m = n \<and> n < 8)" for w :: "8 word"
  by (auto simp: bit_or_iff bit_exp_iff dest: bit_imp_le_length)

lemma bit_clear_pin: "bit (w AND NOT (push_bit n 1)) m \<longleftrightarrow> bit w m \<and> m \<noteq> n" for w :: "8 word"
  by (auto simp: bit_and_iff bit_not_iff bit_exp_iff dest: bit_imp_le_length)

lemma bit_after_write_pin:
  "is_valid (deref q b) \<Longrightarrow>
   bit (pcf_value (deref q (pcf_write_pin p n s b))) m \<longleftrightarrow>
     (if q = p \<and> m = n then s \<and> n < 8 else bit (pcf_value (deref q b)) m)"
  by (cases s) (auto simp: pcf_write_pin_deref write_pin_value bit_set_pin bit_clear_pin
                      simp del: push_bit_of_1 dest: bit_imp_le_length)

lemma valid_after_write_pin: "is_valid (deref q (pcf_write_pin p n s b)) = is_valid (deref q b)"
  by (simp add: pcf_write_pin_deref write_pin_valid)

lemma bit_after_write_all_pins:
  "is_valid (deref q b) \<Longrightarrow>
   bit (pcf_value (deref q (foldl (\<lambda>b (relay_num, pcf, pin_num). pcf_write_pin pcf pin_num s b) b xs))) m \<longleftrightarrow>
     (if (q, m) \<in> snd ` set xs then s \<and> m < 8 else bit (pcf_value (deref q b)) m)"
proof (induction xs rule: rev_induct)
  case Nil
  show ?case by simp
next
  case (snoc x xs)
  obtain r p n where x: "x = (r, p, n)" by (cases x)
  let ?b = "foldl (\<lambda>b (relay_num, pcf, pin_num). pcf_write_pin pcf pin_num s b) b xs"
  have v: "is_valid (deref q ?b)"
    using snoc.prems by (induction xs rule: rev_induct) (simp_all add: valid_after_write_pin split_def)
  show ?case
    using snoc.IH [OF snoc.prems] bit_after_write_pin [OF v, of p n s m]
    by (auto simp: x image_iff)
qed

lemma relays_state_print [simp]: "relays_state (print_board m b) = relays_state b"
  by (intro relays_state_cong) (simp_all add: print_board_def)

lemma parse_examples:
  "parse_query ''/?relay=3&state=on'' = Inr [(''relay'', ''3''), (''state'', ''on'')]"
  "parse_query ''/?relay=all&state=on'' = Inr [(''relay'', ''all''), (''state'', ''on'')]"
  "parse_query ''/?relay=17&state=on'' = Inr [(''relay'', ''17''), (''state'', ''on'')]"
  by code_simp+

lemma outputs_entries:
  "(r, p, n) \<in> set outputs_map \<Longrightarrow> (p = Outputs_1_8 \<or> p = Outputs_9_16) \<and> n < 8"
  by (auto simp: outputs_map_eq)

lemma relays_after_all:
  assumes "is_valid (pcf_outputs_1_8 b)" and "is_valid (pcf_outputs_9_16 b)"
  shows "relays_state (foldl (\<lambda>b (relay_num, pcf, pin_num). pcf_write_pin pcf pin_num s b)
                  b outputs_map) =
         map (\<lambda>r. (r, if s then ''on'' else ''off'')) (map str [1..<17])"
proof -
  let ?b = "foldl (\<lambda>b (relay_num, pcf, pin_num). pcf_write_pin pcf pin_num s b) b outputs_map"
  have "(if bit (pcf_value (deref p ?b)) n then ''on'' else ''off'') = (if s then ''on'' else ''off'')"
    if "(r, p, n) \<in> set outputs_map" for r p n
  proof -
    from that have pn: "(p = Outputs_1_8 \<or> p = Outputs_9_16) \<and> n < 8" by (rule outputs_entries)
    then have v: "is_valid (deref p b)" using assms by auto
    from that have "(p, n) \<in> snd ` set outputs_map" by force
    then show ?thesis using bit_after_write_all_pins [OF v, of s outputs_map n] pn by simp
  qed
  then have "relays_state ?b = map (\<lambda>(r, p, n). (r, if s then ''on'' else ''off'')) outputs_map"
    unfolding relays_state_eq by (intro map_cong) auto
  then show ?thesis unfolding relay_ids by (simp add: split_def o_def)
qed

text \<open>
  C4. On a board whose output devices are valid, whatever the bus answers: after the
  request \<open>/?relay=3&state=on\<close> the state query reports relay "3" as "on", and after
  \<open>/?relay=all&state=on\<close> it reports every relay "1".."16" as "on".
\<close>

theorem control_then_state_roundtrip:
  "(is_valid (pcf_outputs_1_8 b) \<longrightarrow>
      map_of (relays (fst (api_state_handler (snd (index_handler ''/?relay=3&state=on'' b)))))
        ''3'' = Some ''on'') \<and>
   (is_valid (pcf_outputs_1_8 b) \<and> is_valid (pcf_outputs_9_16 b) \<longrightarrow>
      relays (fst (api_state_handler (snd (index_handler ''/?relay=all&state=on'' b)))) =
        map (\<lambda>r. (r, ''on'')) (map str [1..<17]))"
proof (intro conjI impI)
  assume v: "is_valid (pcf_outputs_1_8 b)"
  have r: "map_of outputs_map ''3'' = Some (Outputs_1_8, 2)" by (simp add: outputs_map_eq)
  have "snd (index_handler ''/?relay=3&state=on'' b) =
          print_board (Relay_set ''3'' ''ON'') (pcf_write_pin Outputs_1_8 2 True b)"
    by (simp add: index_handler_def parse_examples apply_control_def resolve_def r)
  moreover have "bit (pcf_value (deref Outputs_1_8 (pcf_write_pin Outputs_1_8 2 True b))) 2"
    using v bit_after_write_pin [of Outputs_1_8 b Outputs_1_8 2 True 2] by simp
  ultimately show "map_of (relays (fst (api_state_handler
      (snd (index_handler ''/?relay=3&state=on'' b))))) ''3'' = Some ''on''"
    using relays_state_lookup [OF r, of "pcf_write_pin Outputs_1_8 2 True b"]
    by (simp add: api_relays)
next
  assume v: "is_valid (pcf_outputs_1_8 b) \<and> is_valid (pcf_outputs_9_16 b)"
  have "snd (index_handler ''/?relay=all&state=on'' b) =
          print_board (All_relays_set ''ON'')
            (foldl (\<lambda>b (relay_num, pcf, pin_num). pcf_write_pin pcf pin_num True b) b outputs_map)"
    by (simp add: index_handler_def parse_examples apply_control_def)
  then show "relays (fst (api_state_handler (snd (index_handler ''/?relay=all&state=on'' b)))) =
        map (\<lambda>r. (r, ''on'')) (map str [1..<17])"
    using relays_after_all [of b True] v by (simp add: api_relays)
qed

theorem control_then_state_roundtrip_witness:
  "is_valid (pcf_outputs_1_8 (example_board_with 0 0 [Byte 0])) \<and>
   is_valid (pcf_outputs_9_16 (example_board_with 0 0 [Byte 0])) \<and>
   map_of (relays (fst (api_state_handler (example_board_with 0 0 [Byte 0])))) ''3'' = Some ''off'' \<and>
   map_of (relays (fst (api_state_handler
      (snd (index_handler ''/?relay=3&state=on'' (example_board_with 0 0 [Byte 0])))))) ''3''
     = Some ''on'' \<and>
   relays (fst (api_state_handler
      (snd (index_handler ''/?relay=all&state=on'' (example_board_with 0 0 (replicate 16 (Byte 0)))))))
     = map (\<lambda>r. (r, ''on'')) (map fst outputs_map)"
proof -
  have "map_of (relays (fst (api_state_handler (example_board_with 0 0 [Byte 0])))) ''3'' = Some ''off''"
    by (simp add: api_relays relays_state_eq outputs_map_eq example_board_with_def example_board_def
                  example_pcf_def)
  then show ?thesis
    using control_then_state_roundtrip [of "example_board_with 0 0 [Byte 0]"]
          control_then_state_roundtrip [of "example_board_with 0 0 (replicate 16 (Byte 0))"]
    unfolding relay_ids
    by (simp add: example_board_with_def example_board_def example_pcf_def)
qed

text \<open>
  C3, as stated, fails: the request for relay "17" is answered \<open>200 OK\<close>, not with a
  failure; the board is unchanged.
\<close>

theorem unknown_relay_request_succeeds:
  "''17'' \<notin> set (map str [1..<17]) \<and> ''17'' \<noteq> ''all'' \<and>
   index_handler ''/?relay=17&state=on'' (example_board []) = (OK_text, example_board [])"
proof -
  have "resolve ''17'' = None" by (simp add: resolve_def outputs_map_eq)
  then have "index_handler ''/?relay=17&state=on'' (example_board []) = (OK_text, example_board [])"
    by (simp add: index_handler_def parse_examples apply_control_def)
  moreover have "''17'' \<notin> set (map str [1..<17])"
    unfolding relay_ids by (simp add: outputs_map_eq)
  ultimately show ?thesis by simp
qed

text \<open>
  C3, amended. A control request whose relay identifier is neither one of "1".."16" nor
  "all" writes nothing and prints nothing: the board, with every output device's cached
  byte, is unchanged, and the request is answered \<open>200 OK\<close>.
\<close>

theorem unknown_relay_is_ignored:
  assumes "r \<notin> set (map str [1..<17])" and "r \<noteq> ''all''"
  shows "apply_control (Some r) st b = b \<and>
         (CHR ''?'' \<in> set path \<and> parse_query path = Inr params \<and>
          map_of params ''relay'' = Some r \<longrightarrow> index_handler path b = (OK_text, b))"
proof -
  have "resolve r = None"
    using assms(1) unfolding relay_ids resolve_def by (simp add: map_of_eq_None_iff)
  then have "apply_control (Some r) st b = b" for st
    using assms(2) by (simp add: apply_control_def)
  then show ?thesis by (simp add: index_handler_def)
qed

theorem unknown_relay_is_ignored_witness:
  "''17'' \<notin> set (map str [1..<17]) \<and> ''17'' \<noteq> ''all'' \<and>
   CHR ''?'' \<in> set ''/?relay=17&state=off'' \<and>
   apply_control (Some ''17'') (Some ''off'') (example_board [Byte 0]) = example_board [Byte 0] \<and>
   index_handler ''/?relay=17&state=off'' (example_board [Byte 0]) =
     (OK_text, example_board [Byte 0])"
proof -
  have a: "''17'' \<notin> set (map str [1..<17])" unfolding relay_ids by (simp add: outputs_map_eq)
  have b: "''17'' \<noteq> ''all''" by simp
  have c: "parse_query ''/?relay=17&state=off'' = Inr [(''relay'', ''17''), (''state'', ''off'')]"
    by code_simp
  show ?thesis
    using a unknown_relay_is_ignored [OF a b, of "Some ''off''" "example_board [Byte 0]"
            "''/?relay=17&state=off''" "[(''relay'', ''17''), (''state'', ''off'')]"] c
    by simp
qed

section \<open>The edge scan\<close>


lemma stdout_assign [simp]: "world (assign p d b) = world b"
  by (cases p) simp_all















text \<open>
  The state written by a toggle is the negation of the relay's active-low reading, that
  is, the cached bit itself; \<open>write_pin\<close> sets the bit for \<open>True\<close> and clears it for
  \<open>False\<close>, so the byte a toggle writes is the byte already cached.
\<close>

lemma toggle_write_keeps_cache:
  "pcf_value (fst (write_pin d n (bit (pcf_value d) n) e)) = pcf_value d"
proof (cases "is_valid d")
  case True
  have "(if bit (pcf_value d) n then pcf_value d OR push_bit n 1
         else pcf_value d AND NOT (push_bit n 1)) = pcf_value d"
    by (rule bit_eqI) (auto simp: bit_set_pin bit_clear_pin simp del: push_bit_of_1)
  with True show ?thesis by (simp add: write_pin_value del: push_bit_of_1)
next
  case False
  then show ?thesis by (simp add: write_pin_invalid)
qed

lemma edge_bit_keeps_caches:
  "pcf_value (deref q (snd (edge_bit addr diff current_state i b))) = pcf_value (deref q b)"
  using toggle_write_keeps_cache
  by (auto simp: edge_bit_def Let_def print_board_def pcf_write_pin_deref test_pow_iff
           split: option.splits prod.splits)



text \<open>
  The same readings in the whole task, on one script: the two initial reads, then three
  iterations of the loop over both input devices (the second device reads 0xFF
  throughout, and each toggle's write is acknowledged). The cached byte of the first
  output device is 0xFF before and after.
\<close>

lemma scan_keys_example:
  "map (\<lambda>n. fired (snd (scan_keys n (example_board
          [Byte 0xFF, Byte 0xFF,
           Byte 0xFE, Byte 0, Byte 0xFF,
           Byte 0xFE, Byte 0xFF,
           Byte 0xFC, Byte 0, Byte 0xFF])))) [0, 1, 2, 3] =
     [[],
      [Triggered 0 0x22 ''1'' True],
      [Triggered 0 0x22 ''1'' True],
      [Triggered 0 0x22 ''1'' True, Triggered 1 0x22 ''2'' True]]"
  by code_simp

lemma scan_keys_example_outputs:
  "pcf_value (pcf_outputs_1_8 (snd (scan_keys 3 (example_board
          [Byte 0xFF, Byte 0xFF,
           Byte 0xFE, Byte 0, Byte 0xFF,
           Byte 0xFE, Byte 0xFF,
           Byte 0xFC, Byte 0, Byte 0xFF])))) = 0xFF"
  by code_simp

end
